theory Spec2Isabelle
  imports Complex_Main "HOL-Library.Char_ord" "HOL-Library.List_Lexorder"
begin

section \<open>Mobility records and the streaming aggregation\<close>

text \<open>
  The notebook reads the mobility file in batches and reduces it into the dictionary
  \<open>hex_features\<close>:
  \<^verbatim>\<open>
  hex_features = {}
  for batch in mobility.iter_batches(batch_size=chunk_size):
      chunk_df = batch.to_pandas()
      chunk_df["hex_id"] = chunk_df.apply(lambda row:
          h3.latlng_to_cell(row["lat"], row["lon"], desired_resolution), axis=1)
      grouped = chunk_df.groupby("hex_id").agg(
          device_count=("device_id", "nunique"),
          visit_count=("device_id", "count"),
          avg_time=("timestamp", "mean")).reset_index()
      for _, row in grouped.iterrows():
          hex_id = row["hex_id"]
          if hex_id not in hex_features:
              hex_features[hex_id] = row[1:].values
          else:
              hex_features[hex_id] += row[1:].values
  \<close>
  A mobility record has the four columns of the mobility file. Floating-point numbers
  are kept abstract: they are values of a type \<open>'f\<close> of which only an addition is
  used (no law of arithmetic is assumed for it), and the mean of a group of timestamps
  is a parameter \<open>mean\<close>. The geospatial indexer \<open>h3.latlng_to_cell\<close> is a parameter
  as well. An entry of the column \<open>device_id\<close> may be missing (a null of the
  mobility file): pandas' \<open>count\<close> counts the entries of a group that are present,
  and \<open>nunique\<close> the distinct values among them.
\<close>

record 'f mobility_record =
  device_id :: "string option"
  lat :: 'f
  lon :: 'f
  timestamp :: int

text \<open>One value of \<open>hex_features\<close>: the array \<open>row[1:].values\<close>.\<close>

record 'f cell_features =
  device_count :: int
  visit_count :: int
  avg_time :: 'f

text \<open>
  A Python dictionary keeps its keys in insertion order and holds every key once. It is
  an association list here: a lookup is \<open>map_of\<close>, a store replaces the value of a
  key that is present, in place, and appends a key that is new.
\<close>

type_synonym ('k, 'v) dict = "('k \<times> 'v) list"

fun dict_set :: "('k, 'v) dict \<Rightarrow> 'k \<Rightarrow> 'v \<Rightarrow> ('k, 'v) dict" where
  "dict_set [] k v = [(k, v)]"
| "dict_set ((k', v') # d) k v = (if k' = k then (k, v) # d else (k', v') # dict_set d k v)"

definition dict_keys :: "('k, 'v) dict \<Rightarrow> 'k list" where
  "dict_keys d = map fst d"

text \<open>The column \<open>hex_id\<close> added to the chunk: every record paired with its cell.\<close>

definition with_hex_id ::
  "('f \<Rightarrow> 'f \<Rightarrow> int \<Rightarrow> string) \<Rightarrow> int \<Rightarrow> 'f mobility_record list
    \<Rightarrow> (string \<times> 'f mobility_record) list" where
  "with_hex_id latlng_to_cell desired_resolution batch =
     map (\<lambda>row. (latlng_to_cell (lat row) (lon row) desired_resolution, row)) batch"

fun dropna :: "'a option list \<Rightarrow> 'a list" where
  "dropna [] = []"
| "dropna (None # xs) = dropna xs"
| "dropna (Some x # xs) = x # dropna xs"

definition nunique :: "'a option list \<Rightarrow> int" where
  "nunique xs = int (length (remdups (dropna xs)))"

definition count_present :: "'a option list \<Rightarrow> int" where
  "count_present xs = int (length (dropna xs))"

text \<open>
  \<open>groupby("hex_id").agg(...)\<close>: one row per cell of the chunk, the cells in sorted
  order (pandas sorts the group keys), each with the three aggregates of its group.
\<close>

definition group_rows :: "string \<Rightarrow> (string \<times> 'f mobility_record) list \<Rightarrow> 'f mobility_record list" where
  "group_rows h chunk_df = map snd (filter (\<lambda>p. fst p = h) chunk_df)"

definition agg_group :: "(int list \<Rightarrow> 'f) \<Rightarrow> 'f mobility_record list \<Rightarrow> 'f cell_features" where
  "agg_group mean g =
     \<lparr>device_count = nunique (map device_id g),
      visit_count = count_present (map device_id g),
      avg_time = mean (map timestamp g)\<rparr>"

definition grouped ::
  "(int list \<Rightarrow> 'f) \<Rightarrow> (string \<times> 'f mobility_record) list \<Rightarrow> (string \<times> 'f cell_features) list" where
  "grouped mean chunk_df =
     map (\<lambda>h. (h, agg_group mean (group_rows h chunk_df))) (sort (remdups (map fst chunk_df)))"

text \<open>\<open>hex_features[hex_id] += row[1:].values\<close> adds the arrays element by element.\<close>

definition add_values :: "('f::plus) cell_features \<Rightarrow> 'f cell_features \<Rightarrow> 'f cell_features" where
  "add_values a b =
     \<lparr>device_count = device_count a + device_count b,
      visit_count = visit_count a + visit_count b,
      avg_time = avg_time a + avg_time b\<rparr>"

text \<open>The body of the inner loop, for one row of \<open>grouped\<close>.\<close>

definition merge_row ::
  "(string, ('f::plus) cell_features) dict \<Rightarrow> string \<times> 'f cell_features
    \<Rightarrow> (string, 'f cell_features) dict" where
  "merge_row hex_features row =
     (case map_of hex_features (fst row) of
        None \<Rightarrow> dict_set hex_features (fst row) (snd row)
      | Some old \<Rightarrow> dict_set hex_features (fst row) (add_values old (snd row)))"

text \<open>The body of the outer loop, for one batch, and the whole loop from the empty dictionary.\<close>

definition process_batch ::
  "('f \<Rightarrow> 'f \<Rightarrow> int \<Rightarrow> string) \<Rightarrow> int \<Rightarrow> (int list \<Rightarrow> 'f)
    \<Rightarrow> (string, ('f::plus) cell_features) dict \<Rightarrow> 'f mobility_record list
    \<Rightarrow> (string, 'f cell_features) dict" where
  "process_batch latlng_to_cell desired_resolution mean hex_features batch =
     foldl merge_row hex_features
       (grouped mean (with_hex_id latlng_to_cell desired_resolution batch))"

definition aggregate ::
  "('f \<Rightarrow> 'f \<Rightarrow> int \<Rightarrow> string) \<Rightarrow> int \<Rightarrow> (int list \<Rightarrow> 'f)
    \<Rightarrow> 'f mobility_record list list \<Rightarrow> (string, ('f::plus) cell_features) dict" where
  "aggregate latlng_to_cell desired_resolution mean batches =
     foldl (process_batch latlng_to_cell desired_resolution mean) [] batches"

text \<open>The cell of a record.\<close>

definition cell_of :: "('f \<Rightarrow> 'f \<Rightarrow> int \<Rightarrow> string) \<Rightarrow> int \<Rightarrow> 'f mobility_record \<Rightarrow> string" where
  "cell_of latlng_to_cell desired_resolution row =
     latlng_to_cell (lat row) (lon row) desired_resolution"

text \<open>The mapping from cell identifier to \<open>visit_count\<close> that \<open>hex_features\<close> holds.\<close>

definition visit_counts :: "(string, 'f cell_features) dict \<Rightarrow> string \<Rightarrow> int option" where
  "visit_counts hex_features = map_of (map (\<lambda>p. (fst p, visit_count (snd p))) hex_features)"

text \<open>
  The state of the claims on the counts: every cell of the dictionary has at least one
  device, at least one record, and no more devices than records.
\<close>

definition counts_ok :: "(string, 'f cell_features) dict \<Rightarrow> bool" where
  "counts_ok hex_features =
     list_all (\<lambda>p. 1 \<le> device_count (snd p) \<and> 1 \<le> visit_count (snd p)
                 \<and> device_count (snd p) \<le> visit_count (snd p)) hex_features"

definition has_device :: "'f mobility_record \<Rightarrow> bool" where
  "has_device row \<longleftrightarrow> device_id row \<noteq> None"

text \<open>
  The number of records of a dataset that the indexer maps to the cell \<open>h\<close>, and the
  number of those among them that have a device identifier.
\<close>

definition records_in_cell ::
  "('f \<Rightarrow> 'f \<Rightarrow> int \<Rightarrow> string) \<Rightarrow> int \<Rightarrow> string \<Rightarrow> 'f mobility_record list \<Rightarrow> int" where
  "records_in_cell latlng_to_cell desired_resolution h records =
     int (length (filter (\<lambda>row. cell_of latlng_to_cell desired_resolution row = h) records))"

definition visits_in_cell ::
  "('f \<Rightarrow> 'f \<Rightarrow> int \<Rightarrow> string) \<Rightarrow> int \<Rightarrow> string \<Rightarrow> 'f mobility_record list \<Rightarrow> int" where
  "visits_in_cell latlng_to_cell desired_resolution h records =
     count_present
       (map device_id (filter (\<lambda>row. cell_of latlng_to_cell desired_resolution row = h) records))"

text \<open>
  A small mobility dataset for concrete checks: seven pings, five in the cell \<open>h1\<close>
  and two in the cell \<open>h2\<close>, with an indexer that looks at the latitude only and the
  exact mean of the timestamps.
\<close>

definition example_cell :: "real \<Rightarrow> real \<Rightarrow> int \<Rightarrow> string" where
  "example_cell la lo res = (if la < 1 then ''h1'' else ''h2'')"

definition example_mean :: "int list \<Rightarrow> real" where
  "example_mean ts = real_of_int (sum_list ts) / real (length ts)"

definition ping :: "string \<Rightarrow> real \<Rightarrow> int \<Rightarrow> real mobility_record" where
  "ping d la t = \<lparr>device_id = Some d, lat = la, lon = 0, timestamp = t\<rparr>"

definition anonymous_ping :: "real mobility_record" where
  "anonymous_ping = \<lparr>device_id = None, lat = 0, lon = 0, timestamp = 10\<rparr>"

definition example_pings :: "real mobility_record list" where
  "example_pings =
     [ping ''a'' 0 10, ping ''a'' 0 20, ping ''b'' 0 30, ping ''c'' 0 40, ping ''a'' 0 50,
      ping ''a'' 2 60, ping ''d'' 2 70]"

section \<open>Tables, the join of the features, and the alignment of the columns\<close>

text \<open>
  A pandas table: the column labels in order, and the rows, each a list of values in
  the order of the columns. A value is a string, an integer, a floating-point number
  or missing (\<open>NaN\<close>). The dtype of a column is not stored: where pandas turns an
  integer column holding a missing entry into a float column, the numbers stay the
  same, and where the dtype decides (the key of a merge, the input of \<open>predict\<close>) a
  column is numeric when it holds no string.
\<close>

datatype 'f val = StrV string | IntV int | FltV 'f | NaN

datatype error = KeyError | ValueError | MergeError

record 'f frame =
  columns :: "string list"
  rows :: "'f val list list"

definition rectangular :: "'f frame \<Rightarrow> bool" where
  "rectangular df = list_all (\<lambda>r. length r = length (columns df)) (rows df)"

text \<open>The value of a row in the column \<open>c\<close>, and the whole column \<open>df[c]\<close>.\<close>

definition cell :: "string list \<Rightarrow> 'f val list \<Rightarrow> string \<Rightarrow> 'f val" where
  "cell cols r c = (case map_of (zip cols r) c of Some v \<Rightarrow> v | None \<Rightarrow> NaN)"

definition column_values :: "'f frame \<Rightarrow> string \<Rightarrow> 'f val list" where
  "column_values df c = map (\<lambda>r. cell (columns df) r c) (rows df)"

text \<open>A row without the entries of the columns \<open>cs\<close>.\<close>

definition without :: "string list \<Rightarrow> string list \<Rightarrow> 'a list \<Rightarrow> 'a list" where
  "without cs cols r = map snd (filter (\<lambda>p. fst p \<notin> set cs) (zip cols r))"

text \<open>
  \<^verbatim>\<open>
  mobility_features_df = pd.DataFrame.from_dict(hex_features, orient='index',
      columns=["device_count", "visit_count", "avg_time"]).reset_index()
  mobility_features_df.rename(columns={"index": "hex_id"}, inplace=True)
  \<close>
  One row per key of the dictionary, in the order of the dictionary.
\<close>

definition features_row :: "string \<times> 'f cell_features \<Rightarrow> 'f val list" where
  "features_row p =
     [StrV (fst p), IntV (device_count (snd p)), IntV (visit_count (snd p)), FltV (avg_time (snd p))]"

definition mobility_features_df :: "(string, 'f cell_features) dict \<Rightarrow> 'f frame" where
  "mobility_features_df hex_features =
     \<lparr>columns = [''hex_id'', ''device_count'', ''visit_count'', ''avg_time''],
      rows = map features_row hex_features\<rparr>"

text \<open>
  \<open>left.merge(right, on=key, how="left")\<close>. The columns of the result are those of
  the left table, then those of the right table without the key; a label that both
  tables have beside the key gets the suffix \<open>_x\<close> on the left and \<open>_y\<close> on the
  right. Every left row, in order, is paired with each right row of the same key, in
  the order of the right table; a left row that no right row matches is kept once, with
  the right columns missing.

  The merge raises, in this order:
  \<^item> a KeyError when one of the tables has no column \<open>key\<close>, and a ValueError when the
    label \<open>key\<close> is not unique in one of them;
  \<^item> a ValueError when both tables have rows and the key column of one is numeric
    while the key column of the other holds strings (a column is numeric here when it
    holds no string, as \<open>read_csv\<close> types it);
  \<^item> a MergeError when the suffixes make a label of one side occur again on that side
    although the label it comes from did not (\<open>duplicated\<close> marks every occurrence of
    a label but the first).
\<close>

fun is_str :: "'f val \<Rightarrow> bool" where
  "is_str (StrV s) = True"
| "is_str _ = False"

fun duplicated_from :: "'a list \<Rightarrow> 'a list \<Rightarrow> bool list" where
  "duplicated_from seen [] = []"
| "duplicated_from seen (x # xs) = (x \<in> set seen) # duplicated_from (x # seen) xs"

definition duplicated :: "'a list \<Rightarrow> bool list" where
  "duplicated xs = duplicated_from [] xs"

definition suffix_dups :: "string list \<Rightarrow> string list \<Rightarrow> string list" where
  "suffix_dups labels renamed =
     map fst (filter (\<lambda>p. fst (snd p) \<and> \<not> snd (snd p))
                (zip renamed (zip (duplicated renamed) (duplicated labels))))"

definition left_labels :: "string list \<Rightarrow> string list \<Rightarrow> string \<Rightarrow> string list" where
  "left_labels lcols rcols on =
     map (\<lambda>c. if c \<noteq> on \<and> c \<in> set rcols then c @ ''_x'' else c) lcols"

definition right_labels :: "string list \<Rightarrow> string list \<Rightarrow> string \<Rightarrow> string list" where
  "right_labels lcols rcols on =
     map (\<lambda>c. if c \<in> set lcols then c @ ''_y'' else c) (filter (\<lambda>c. c \<noteq> on) rcols)"

definition merged_columns :: "string list \<Rightarrow> string list \<Rightarrow> string \<Rightarrow> string list" where
  "merged_columns lcols rcols on = left_labels lcols rcols on @ right_labels lcols rcols on"

definition matches :: "'f frame \<Rightarrow> string \<Rightarrow> 'f val \<Rightarrow> 'f val list list" where
  "matches right on k = filter (\<lambda>r. cell (columns right) r on = k) (rows right)"

definition merged_rows :: "string list \<Rightarrow> 'f frame \<Rightarrow> string \<Rightarrow> 'f val list \<Rightarrow> 'f val list list" where
  "merged_rows lcols right on l =
     (case matches right on (cell lcols l on) of
        [] \<Rightarrow> [l @ replicate (length (filter (\<lambda>c. c \<noteq> on) (columns right))) NaN]
      | m # ms \<Rightarrow> map (\<lambda>r. l @ without [on] (columns right) r) (m # ms))"

definition key_dtype_clash :: "'f frame \<Rightarrow> 'f frame \<Rightarrow> string \<Rightarrow> bool" where
  "key_dtype_clash left right on \<longleftrightarrow>
     rows left \<noteq> [] \<and> rows right \<noteq> []
     \<and> list_ex is_str (column_values left on) \<noteq> list_ex is_str (column_values right on)"

definition merge_left :: "'f frame \<Rightarrow> 'f frame \<Rightarrow> string \<Rightarrow> error + 'f frame" where
  "merge_left left right on =
     (if on \<notin> set (columns left) \<or> on \<notin> set (columns right) then Inl KeyError
      else if length (filter (\<lambda>c. c = on) (columns left)) \<noteq> 1
              \<or> length (filter (\<lambda>c. c = on) (columns right)) \<noteq> 1 then Inl ValueError
      else if key_dtype_clash left right on then Inl ValueError
      else if suffix_dups (columns left) (left_labels (columns left) (columns right) on) \<noteq> []
              \<or> suffix_dups (filter (\<lambda>c. c \<noteq> on) (columns right))
                    (right_labels (columns left) (columns right) on) \<noteq> [] then Inl MergeError
      else Inr \<lparr>columns = merged_columns (columns left) (columns right) on,
                rows = concat (map (merged_rows (columns left) right on) (rows left))\<rparr>)"

text \<open>
  \<open>df.fillna(0)\<close>: every missing value of the table, in whatever column, becomes 0,
  written \<open>IntV 0\<close> whatever the dtype of the column.
\<close>

definition fill_value :: "'f val \<Rightarrow> 'f val \<Rightarrow> 'f val" where
  "fill_value v x = (if x = NaN then v else x)"

definition fillna :: "'f val \<Rightarrow> 'f frame \<Rightarrow> 'f frame" where
  "fillna v df = \<lparr>columns = columns df, rows = map (map (fill_value v)) (rows df)\<rparr>"

text \<open>
  The join of the notebook, once for the labeled and once for the unlabeled table:
  \<^verbatim>\<open>
  train_merged = train.merge(mobility_features_df, on="hex_id", how="left").fillna(0)
  test_merged = test.merge(mobility_features_df, on="hex_id", how="left").fillna(0)
  \<close>
\<close>

definition merged :: "'f frame \<Rightarrow> (string, 'f cell_features) dict \<Rightarrow> error + 'f frame" where
  "merged df hex_features =
     (case merge_left df (mobility_features_df hex_features) ''hex_id'' of
        Inl e \<Rightarrow> Inl e
      | Inr m \<Rightarrow> Inr (fillna (IntV 0) m))"

text \<open>
  \<open>df.drop(columns=cs)\<close> raises a KeyError for a label that is not a column;
  with \<open>errors='ignore'\<close> it drops the labels that are.
\<close>

definition drop_ignore :: "string list \<Rightarrow> 'f frame \<Rightarrow> 'f frame" where
  "drop_ignore cs df =
     \<lparr>columns = filter (\<lambda>c. c \<notin> set cs) (columns df),
      rows = map (without cs (columns df)) (rows df)\<rparr>"

definition drop_columns :: "string list \<Rightarrow> 'f frame \<Rightarrow> error + 'f frame" where
  "drop_columns cs df =
     (if set cs \<subseteq> set (columns df) then Inr (drop_ignore cs df) else Inl KeyError)"

text \<open>
  \<open>df.reindex(columns=cols, fill_value=v)\<close>. A table that has the columns \<open>cols\<close>
  already, in that order, is returned as it is. Otherwise the table is conformed to
  \<open>cols\<close>: it gets the columns \<open>cols\<close>, in that order; a label that the table had
  keeps its values, a new label gets \<open>v\<close> in every row. That is a ValueError for a
  table in which a label occurs twice (\<open>cannot reindex on an axis with duplicate
  labels\<close>).
\<close>

definition conform :: "string list \<Rightarrow> 'f val \<Rightarrow> 'f frame \<Rightarrow> 'f frame" where
  "conform cols v df =
     \<lparr>columns = cols,
      rows = map (\<lambda>r. map (\<lambda>c. case map_of (zip (columns df) r) c of
                                   Some x \<Rightarrow> x | None \<Rightarrow> v) cols) (rows df)\<rparr>"

definition reindex :: "string list \<Rightarrow> 'f val \<Rightarrow> 'f frame \<Rightarrow> error + 'f frame" where
  "reindex cols v df =
     (if columns df = cols then Inr df
      else if \<not> distinct (columns df) then Inl ValueError
      else Inr (conform cols v df))"

text \<open>
  \<open>df[c] = values\<close>: as many values as rows, or a ValueError; the column \<open>c\<close> is
  overwritten where it is, or appended as the last column when it is new.
\<close>

definition set_column :: "'f frame \<Rightarrow> string \<Rightarrow> 'f val list \<Rightarrow> error + 'f frame" where
  "set_column df c vs =
     (if length vs \<noteq> length (rows df) then Inl ValueError
      else if c \<in> set (columns df)
      then Inr \<lparr>columns = columns df,
                rows = map (\<lambda>(r, v). map (\<lambda>(c', x). if c' = c then v else x) (zip (columns df) r))
                         (zip (rows df) vs)\<rparr>
      else Inr \<lparr>columns = columns df @ [c],
                rows = map (\<lambda>(r, v). r @ [v]) (zip (rows df) vs)\<rparr>)"

text \<open>
  The feature table of the training side, whose columns the model is fitted on
  (\<open>train_test_split\<close> keeps the columns of \<open>X\<close>, so \<open>X_train.columns\<close> are these):
  \<^verbatim>\<open>
  X = train_merged.drop(columns=["cost_of_living", "hex_id"])
  \<close>
\<close>

definition X_of :: "'f frame \<Rightarrow> (string, 'f cell_features) dict \<Rightarrow> error + 'f frame" where
  "X_of train hex_features =
     (case merged train hex_features of
        Inl e \<Rightarrow> Inl e
      | Inr train_merged \<Rightarrow> drop_columns [''cost_of_living'', ''hex_id''] train_merged)"

text \<open>
  The prediction side.
  \<^verbatim>\<open>
  test_X = test_merged.drop(columns=["hex_id"], errors='ignore')
  test_X = test_X.reindex(columns=X_train.columns, fill_value=0)
  test["cost_of_living"] = model_rf.predict(test_X)
  \<close>
  The fitted model is a function from the feature values of a row to a number,
  together with the columns it was fitted on; the function has no value for a row
  that the library refuses (a value that is no finite number). \<open>predict\<close> applies
  the function to every row of a feature table. It raises a ValueError for a table
  whose columns are not the columns of the fit, for a table without rows or without
  columns, for a table that holds a string, which is no number, and for a table with
  a row that the function has no value for.
\<close>

definition test_X_of :: "string list \<Rightarrow> 'f frame \<Rightarrow> error + 'f frame" where
  "test_X_of X_train_columns test_merged =
     reindex X_train_columns (IntV 0) (drop_ignore [''hex_id''] test_merged)"

definition predict ::
  "('f val list \<Rightarrow> 'f option) \<Rightarrow> string list \<Rightarrow> 'f frame \<Rightarrow> error + 'f val list" where
  "predict model X_train_columns X =
     (if columns X \<noteq> X_train_columns then Inl ValueError
      else if rows X = [] \<or> columns X = [] then Inl ValueError
      else if list_ex (list_ex is_str) (rows X) then Inl ValueError
      else if list_ex (\<lambda>r. model r = None) (rows X) then Inl ValueError
      else Inr (map (\<lambda>r. case model r of Some y \<Rightarrow> FltV y | None \<Rightarrow> NaN) (rows X)))"

definition predictor ::
  "('f val list \<Rightarrow> 'f option) \<Rightarrow> string list \<Rightarrow> (string, 'f cell_features) dict \<Rightarrow> 'f frame
    \<Rightarrow> error + 'f frame" where
  "predictor model X_train_columns hex_features test =
     (case merged test hex_features of
        Inl e \<Rightarrow> Inl e
      | Inr test_merged \<Rightarrow>
          (case test_X_of X_train_columns test_merged of
             Inl e \<Rightarrow> Inl e
           | Inr test_X \<Rightarrow>
               (case predict model X_train_columns test_X of
                  Inl e \<Rightarrow> Inl e
                | Inr predictions \<Rightarrow> set_column test ''cost_of_living'' predictions)))"

text \<open>
  Tables for concrete checks: a labeled table with the cells \<open>h1\<close>, \<open>h2\<close>, \<open>h3\<close>, an
  unlabeled table whose target column is empty, its join, an unlabeled table with two
  labels that clash with the suffixed feature label, and a model that adds up the
  numbers of a row.
\<close>

definition example_train :: "real frame" where
  "example_train =
     \<lparr>columns = [''hex_id'', ''cost_of_living''],
      rows = [[StrV ''h1'', FltV (1/5)], [StrV ''h2'', FltV (1/2)], [StrV ''h3'', FltV (4/5)]]\<rparr>"

definition example_test :: "real frame" where
  "example_test =
     \<lparr>columns = [''hex_id'', ''cost_of_living''],
      rows = [[StrV ''h3'', NaN], [StrV ''h1'', NaN]]\<rparr>"

definition example_features :: "(string, real cell_features) dict" where
  "example_features =
     [(''h1'', \<lparr>device_count = 4, visit_count = 5, avg_time = 65\<rparr>),
      (''h2'', \<lparr>device_count = 2, visit_count = 2, avg_time = 65\<rparr>)]"

definition example_test_merged :: "real frame" where
  "example_test_merged =
     \<lparr>columns = [''hex_id'', ''cost_of_living'', ''device_count'', ''visit_count'', ''avg_time''],
      rows = [[StrV ''h3'', IntV 0, IntV 0, IntV 0, IntV 0],
              [StrV ''h1'', IntV 0, IntV 4, IntV 5, FltV 65]]\<rparr>"

definition example_clash_test :: "real frame" where
  "example_clash_test =
     \<lparr>columns = [''hex_id'', ''device_count'', ''device_count_y''],
      rows = [[StrV ''h1'', IntV 7, IntV 8]]\<rparr>"

fun number_of :: "real val \<Rightarrow> real" where
  "number_of (IntV i) = real_of_int i"
| "number_of (FltV x) = x"
| "number_of _ = 0"

definition example_model :: "real val list \<Rightarrow> real option" where
  "example_model r = Some (sum_list (map number_of r))"

text \<open>
  Auxiliary notions of the proofs: the \<open>visit_count\<close> of a cell, 0 for a cell that
  is not a key; what the two counts of one entry always satisfy; and the feature
  values that the join appends to a row with the key \<open>k\<close>.
\<close>

definition vc :: "(string, 'f cell_features) dict \<Rightarrow> string \<Rightarrow> int" where
  "vc d k = (case map_of d k of None \<Rightarrow> 0 | Some v \<Rightarrow> visit_count v)"

definition row_linked :: "string \<times> 'f cell_features \<Rightarrow> bool" where
  "row_linked p \<longleftrightarrow> 0 \<le> device_count (snd p) \<and> device_count (snd p) \<le> visit_count (snd p)
                    \<and> (1 \<le> visit_count (snd p) \<longrightarrow> 1 \<le> device_count (snd p))"

definition extension :: "(string, 'f cell_features) dict \<Rightarrow> 'f val \<Rightarrow> 'f val list" where
  "extension hf k =
     (case filter (\<lambda>p. StrV (fst p) = k) hf of
        [] \<Rightarrow> [NaN, NaN, NaN]
      | p # ps \<Rightarrow> [IntV (device_count (snd p)), IntV (visit_count (snd p)), FltV (avg_time (snd p))])"

section \<open>The dictionary\<close>

lemma dict_set_keys:
  "map fst (dict_set d k v) = (if k \<in> fst ` set d then map fst d else map fst d @ [k])"
  by (induction d k v rule: dict_set.induct) (auto simp: image_iff)

lemma dict_set_key_set: "fst ` set (dict_set d k v) = insert k (fst ` set d)"
  by (induction d k v rule: dict_set.induct) auto

lemma dict_set_distinct: "distinct (map fst d) \<Longrightarrow> distinct (map fst (dict_set d k v))"
  by (simp add: dict_set_keys)

lemma dict_set_map_of: "map_of (dict_set d k v) = (map_of d)(k \<mapsto> v)"
  by (induction d k v rule: dict_set.induct) (auto simp: fun_eq_iff)

lemma merge_row_keys: "fst ` set (merge_row d row) = insert (fst row) (fst ` set d)"
  by (simp add: merge_row_def dict_set_key_set split: option.splits)

lemma merge_row_distinct: "distinct (map fst d) \<Longrightarrow> distinct (map fst (merge_row d row))"
  by (simp add: merge_row_def dict_set_distinct split: option.splits)

lemma foldl_merge_row_keys:
  "fst ` set (foldl merge_row d rs) = fst ` set d \<union> fst ` set rs"
proof (induction rs arbitrary: d)
  case Nil
  show ?case by simp
next
  case (Cons r rs)
  have "fst ` set (foldl merge_row (merge_row d r) rs)
        = fst ` set (merge_row d r) \<union> fst ` set rs"
    by (rule Cons.IH)
  then show ?case by (simp add: merge_row_keys)
qed

lemma foldl_merge_row_distinct:
  "distinct (map fst d) \<Longrightarrow> distinct (map fst (foldl merge_row d rs))"
  by (induction rs arbitrary: d) (simp_all add: merge_row_distinct)

lemma grouped_keys: "map fst (grouped mean chunk_df) = sort (remdups (map fst chunk_df))"
  by (simp add: grouped_def comp_def)

lemma grouped_key_set: "fst ` set (grouped mean chunk_df) = fst ` set chunk_df"
proof -
  have "fst ` set (grouped mean chunk_df) = set (map fst (grouped mean chunk_df))"
    by simp
  also have "\<dots> = set (map fst chunk_df)"
    unfolding grouped_keys by simp
  finally show ?thesis by simp
qed

lemma with_hex_id_keys:
  "map fst (with_hex_id f res batch) = map (cell_of f res) batch"
  by (simp add: with_hex_id_def cell_of_def comp_def)

lemma with_hex_id_key_set: "fst ` set (with_hex_id f res batch) = cell_of f res ` set batch"
proof -
  have "fst ` set (with_hex_id f res batch) = set (map fst (with_hex_id f res batch))"
    by simp
  also have "\<dots> = cell_of f res ` set batch"
    unfolding with_hex_id_keys by simp
  finally show ?thesis .
qed

lemma process_batch_keys:
  "fst ` set (process_batch f res mean d batch) = fst ` set d \<union> cell_of f res ` set batch"
  by (simp add: process_batch_def foldl_merge_row_keys grouped_key_set with_hex_id_key_set)

lemma process_batch_distinct:
  "distinct (map fst d) \<Longrightarrow> distinct (map fst (process_batch f res mean d batch))"
  by (simp add: process_batch_def foldl_merge_row_distinct)

lemma foldl_process_batch_keys:
  "fst ` set (foldl (process_batch f res mean) d batches)
   = fst ` set d \<union> cell_of f res ` set (concat batches)"
proof (induction batches arbitrary: d)
  case Nil
  show ?case by simp
next
  case (Cons b bs)
  show ?case
    unfolding foldl_Cons Cons.IH process_batch_keys by auto
qed

lemma foldl_process_batch_distinct:
  "distinct (map fst d) \<Longrightarrow> distinct (map fst (foldl (process_batch f res mean) d batches))"
  by (induction batches arbitrary: d) (simp_all add: process_batch_distinct)

lemma aggregate_distinct: "distinct (dict_keys (aggregate f res mean batches))"
  by (simp add: aggregate_def dict_keys_def foldl_process_batch_distinct)


section \<open>Record counts add up over batches\<close>

lemma vc_merge_row:
  "vc (merge_row d row) k = vc d k + (if fst row = k then visit_count (snd row) else 0)"
  by (simp add: vc_def merge_row_def dict_set_map_of add_values_def split: option.splits)

lemma vc_foldl_merge_row:
  "vc (foldl merge_row d rs) k
   = vc d k + sum_list (map (\<lambda>r. if fst r = k then visit_count (snd r) else 0) rs)"
  by (induction rs arbitrary: d) (simp_all add: vc_merge_row)

lemma sum_list_single_key:
  "distinct ks \<Longrightarrow>
   sum_list (map (\<lambda>h. if h = k then g h else (0::int)) ks) = (if k \<in> set ks then g k else 0)"
  by (induction ks) auto

lemma grouped_visit_sum:
  "sum_list (map (\<lambda>r. if fst r = k then visit_count (snd r) else 0) (grouped mean chunk_df))
   = count_present (map device_id (group_rows k chunk_df))"
proof -
  let ?ks = "sort (remdups (map fst chunk_df))"
  let ?g = "\<lambda>h. count_present (map device_id (group_rows h chunk_df))"
  have "sum_list (map (\<lambda>r. if fst r = k then visit_count (snd r) else 0) (grouped mean chunk_df))
        = sum_list (map (\<lambda>h. if h = k then ?g h else 0) ?ks)"
    by (simp add: grouped_def comp_def agg_group_def cong: if_cong)
  also have "\<dots> = (if k \<in> set ?ks then ?g k else 0)"
    by (rule sum_list_single_key) simp
  also have "\<dots> = ?g k"
  proof (cases "k \<in> set ?ks")
    case True
    then show ?thesis by simp
  next
    case False
    then have "filter (\<lambda>p. fst p = k) chunk_df = []"
      by (auto simp: filter_empty_conv)
    with False show ?thesis by (simp add: group_rows_def count_present_def)
  qed
  finally show ?thesis .
qed

lemma group_rows_with_hex_id:
  "group_rows k (with_hex_id f res batch) = filter (\<lambda>row. cell_of f res row = k) batch"
  by (induction batch) (simp_all add: group_rows_def with_hex_id_def cell_of_def)

lemma vc_process_batch:
  "vc (process_batch f res mean d batch) k = vc d k + visits_in_cell f res k batch"
  by (simp add: process_batch_def vc_foldl_merge_row grouped_visit_sum group_rows_with_hex_id
      visits_in_cell_def)

lemma dropna_append: "dropna (xs @ ys) = dropna xs @ dropna ys"
  by (induction xs rule: dropna.induct) simp_all

lemma visits_in_cell_append:
  "visits_in_cell f res k (xs @ ys) = visits_in_cell f res k xs + visits_in_cell f res k ys"
  by (simp add: visits_in_cell_def count_present_def dropna_append)

lemma vc_foldl_process_batch:
  "vc (foldl (process_batch f res mean) d batches) k
   = vc d k + visits_in_cell f res k (concat batches)"
proof (induction batches arbitrary: d)
  case Nil
  show ?case by (simp add: visits_in_cell_def count_present_def)
next
  case (Cons b bs)
  show ?case
    unfolding foldl_Cons Cons.IH vc_process_batch
    by (simp add: visits_in_cell_append)
qed

lemma vc_aggregate:
  "vc (aggregate f res mean batches) k = visits_in_cell f res k (concat batches)"
  by (simp add: aggregate_def vc_foldl_process_batch) (simp add: vc_def)

lemma visit_counts_eq:
  "visit_counts d k = (if k \<in> fst ` set d then Some (vc d k) else None)"
proof -
  have "map_of (map (\<lambda>p. (fst p, visit_count (snd p))) d) k = map_option visit_count (map_of d k)"
    by (induction d) auto
  moreover have "k \<in> fst ` set d \<longleftrightarrow> map_of d k \<noteq> None"
    by (simp add: map_of_eq_None_iff)
  ultimately show ?thesis
    by (cases "map_of d k") (simp_all add: visit_counts_def vc_def)
qed

lemma aggregate_key_set:
  "fst ` set (aggregate f res mean batches) = cell_of f res ` set (concat batches)"
  by (simp add: aggregate_def foldl_process_batch_keys)

lemma aggregate_visit_counts:
  "visit_counts (aggregate f res mean batches) k
   = (if k \<in> cell_of f res ` set (concat batches)
      then Some (visits_in_cell f res k (concat batches)) else None)"
  by (simp add: visit_counts_eq aggregate_key_set vc_aggregate)


section \<open>The invariant of the counts\<close>

lemma dict_set_all: "list_all P d \<Longrightarrow> P (k, v) \<Longrightarrow> list_all P (dict_set d k v)"
  by (induction d k v rule: dict_set.induct) auto

text \<open>A property of the entries that the addition of two arrays keeps is kept by the loop.\<close>

lemma merge_row_all:
  assumes "list_all P d" and "P row"
    and add: "\<And>k a b. P (k, a) \<Longrightarrow> P (k, b) \<Longrightarrow> P (k, add_values a b)"
  shows "list_all P (merge_row d row)"
proof (cases "map_of d (fst row)")
  case None
  with assms(1,2) show ?thesis
    by (simp add: merge_row_def dict_set_all)
next
  case (Some old)
  then have "(fst row, old) \<in> set d"
    by (rule map_of_SomeD)
  with assms(1) have "P (fst row, old)"
    by (simp add: list_all_iff)
  moreover from assms(2) have "P (fst row, snd row)" by simp
  ultimately have "P (fst row, add_values old (snd row))"
    by (rule add)
  with assms(1) Some show ?thesis
    by (simp add: merge_row_def dict_set_all)
qed

lemma foldl_merge_row_all:
  assumes add: "\<And>k a b. P (k, a) \<Longrightarrow> P (k, b) \<Longrightarrow> P (k, add_values a b)"
  shows "list_all P d \<Longrightarrow> list_all P rs \<Longrightarrow> list_all P (foldl merge_row d rs)"
  by (induction rs arbitrary: d) (simp_all add: merge_row_all add)

lemma row_linked_add:
  "row_linked (k, a) \<Longrightarrow> row_linked (k, b) \<Longrightarrow> row_linked (k, add_values a b)"
  by (auto simp: row_linked_def add_values_def)

lemma nunique_le_count: "0 \<le> nunique xs \<and> nunique xs \<le> count_present xs"
  using length_remdups_leq[of "dropna xs"] by (simp add: nunique_def count_present_def)

lemma nunique_positive: "1 \<le> count_present xs \<Longrightarrow> 1 \<le> nunique xs"
proof -
  assume "1 \<le> count_present xs"
  then have "dropna xs \<noteq> []" by (cases "dropna xs") (simp_all add: count_present_def)
  then have "remdups (dropna xs) \<noteq> []" by simp
  then have "0 < length (remdups (dropna xs))" by blast
  then have "1 \<le> int (length (remdups (dropna xs)))" by linarith
  then show "1 \<le> nunique xs" by (simp only: nunique_def)
qed

lemma grouped_linked: "list_all row_linked (grouped mean chunk_df)"
  by (simp add: grouped_def list_all_iff row_linked_def agg_group_def nunique_le_count
      nunique_positive)

lemma process_batch_linked:
  "list_all row_linked d \<Longrightarrow> list_all row_linked (process_batch f res mean d batch)"
  unfolding process_batch_def
  by (rule foldl_merge_row_all[where P = row_linked]) (simp_all add: grouped_linked row_linked_add)

lemma foldl_process_batch_linked:
  "list_all row_linked d \<Longrightarrow> list_all row_linked (foldl (process_batch f res mean) d batches)"
  by (induction batches arbitrary: d) (simp_all add: process_batch_linked)

lemma dropna_nonempty_iff: "dropna xs \<noteq> [] \<longleftrightarrow> (\<exists>x\<in>set xs. x \<noteq> None)"
  by (induction xs rule: dropna.induct) simp_all

lemma visits_positive_iff:
  "1 \<le> visits_in_cell f res h records
   \<longleftrightarrow> (\<exists>row\<in>set records. cell_of f res row = h \<and> has_device row)"
proof -
  let ?ds = "map device_id (filter (\<lambda>row. cell_of f res row = h) records)"
  have "1 \<le> int (length (dropna ?ds)) \<longleftrightarrow> dropna ?ds \<noteq> []"
    by (cases "dropna ?ds") simp_all
  then have "1 \<le> visits_in_cell f res h records \<longleftrightarrow> dropna ?ds \<noteq> []"
    by (simp only: visits_in_cell_def count_present_def)
  also have "\<dots> \<longleftrightarrow> (\<exists>x\<in>set ?ds. x \<noteq> None)"
    by (rule dropna_nonempty_iff)
  also have "\<dots> \<longleftrightarrow> (\<exists>row\<in>set records. cell_of f res row = h \<and> has_device row)"
    by (auto simp: has_device_def)
  finally show ?thesis .
qed

text \<open>
  What the counts of a cell of \<open>hex_features\<close> satisfy after any batches: the cell
  has no more devices than visits, and it has at least one device and at least one
  visit exactly when one of its records has a device identifier.
\<close>

lemma counts_bounds_per_cell:
  assumes "(h, v) \<in> set (aggregate f res mean batches)"
  shows "0 \<le> device_count v \<and> device_count v \<le> visit_count v
       \<and> ((1 \<le> device_count v \<and> 1 \<le> visit_count v)
            \<longleftrightarrow> (\<exists>row\<in>set (concat batches). cell_of f res row = h \<and> has_device row))"
proof -
  have "list_all row_linked (aggregate f res mean batches)"
    by (simp add: aggregate_def foldl_process_batch_linked)
  with assms have linked: "row_linked (h, v)"
    by (simp add: list_all_iff)
  have "distinct (map fst (aggregate f res mean batches))"
    using aggregate_distinct[of f res mean batches] by (simp add: dict_keys_def)
  then have "map_of (aggregate f res mean batches) h = Some v"
    using assms by (rule map_of_is_SomeI)
  then have "vc (aggregate f res mean batches) h = visit_count v"
    by (simp add: vc_def)
  then have "visit_count v = visits_in_cell f res h (concat batches)"
    by (simp add: vc_aggregate)
  then have "1 \<le> visit_count v
             \<longleftrightarrow> (\<exists>row\<in>set (concat batches). cell_of f res row = h \<and> has_device row)"
    by (simp add: visits_positive_iff)
  with linked show ?thesis
    by (auto simp: row_linked_def)
qed

section \<open>Claims on the streaming aggregation\<close>

text \<open>
  C1. Two partitionings of the same mobility dataset into batches (the same records in
  the same order, cut at different places) give the same mapping from cell identifier
  to \<open>visit_count\<close>: the counts of the batches are merged by addition, so that the
  \<open>visit_count\<close> of a cell is the count over the whole dataset, whatever the batches
  (lemma \<open>aggregate_visit_counts\<close>).
\<close>

theorem count_aggregation_batch_independent:
  assumes "concat batches1 = concat batches2"
  shows "visit_counts (aggregate latlng_to_cell desired_resolution mean batches1)
         = visit_counts (aggregate latlng_to_cell desired_resolution mean batches2)"
proof
  fix h
  show "visit_counts (aggregate latlng_to_cell desired_resolution mean batches1) h
        = visit_counts (aggregate latlng_to_cell desired_resolution mean batches2) h"
    unfolding aggregate_visit_counts assms ..
qed

theorem count_aggregation_batch_independent_witness:
  "concat [take 3 example_pings, drop 3 example_pings]
     = concat [take 1 example_pings, take 5 (drop 1 example_pings), drop 6 example_pings]
   \<and> visit_counts (aggregate example_cell 8 example_mean
         [take 3 example_pings, drop 3 example_pings])
     = visit_counts (aggregate example_cell 8 example_mean
         [take 1 example_pings, take 5 (drop 1 example_pings), drop 6 example_pings])
   \<and> aggregate example_cell 8 example_mean [take 3 example_pings, drop 3 example_pings]
     = [(''h1'', \<lparr>device_count = 4, visit_count = 5, avg_time = 65\<rparr>),
        (''h2'', \<lparr>device_count = 2, visit_count = 2, avg_time = 65\<rparr>)]
   \<and> aggregate example_cell 8 example_mean
       [take 1 example_pings, take 5 (drop 1 example_pings), drop 6 example_pings]
     = [(''h1'', \<lparr>device_count = 4, visit_count = 5, avg_time = 45\<rparr>),
        (''h2'', \<lparr>device_count = 2, visit_count = 2, avg_time = 130\<rparr>)]"
proof -
  have c: "concat [take 3 example_pings, drop 3 example_pings]
     = concat [take 1 example_pings, take 5 (drop 1 example_pings), drop 6 example_pings]"
    by (simp add: example_pings_def)
  have a1: "aggregate example_cell 8 example_mean [take 3 example_pings, drop 3 example_pings]
     = [(''h1'', \<lparr>device_count = 4, visit_count = 5, avg_time = 65\<rparr>),
        (''h2'', \<lparr>device_count = 2, visit_count = 2, avg_time = 65\<rparr>)]"
    by (simp add: aggregate_def process_batch_def grouped_def with_hex_id_def example_pings_def
        ping_def example_cell_def example_mean_def merge_row_def agg_group_def group_rows_def
        nunique_def count_present_def add_values_def)
  have a2: "aggregate example_cell 8 example_mean
       [take 1 example_pings, take 5 (drop 1 example_pings), drop 6 example_pings]
     = [(''h1'', \<lparr>device_count = 4, visit_count = 5, avg_time = 45\<rparr>),
        (''h2'', \<lparr>device_count = 2, visit_count = 2, avg_time = 130\<rparr>)]"
    by (simp add: aggregate_def process_batch_def grouped_def with_hex_id_def example_pings_def
        ping_def example_cell_def example_mean_def merge_row_def agg_group_def group_rows_def
        nunique_def count_present_def add_values_def)
  from count_aggregation_batch_independent [OF c, of example_cell 8 example_mean] c a1 a2
  show ?thesis by blast
qed

text \<open>
  C9. The keys of the final \<open>hex_features\<close> are exactly the cells that some record of
  some batch maps to at the fixed resolution: every such cell is a key, and nothing
  else is.
\<close>

theorem aggregate_keys_are_cells_of_batches:
  "set (dict_keys (aggregate latlng_to_cell desired_resolution mean batches))
   = (\<Union>batch\<in>set batches. cell_of latlng_to_cell desired_resolution ` set batch)"
  by (simp add: dict_keys_def aggregate_key_set image_UN)

theorem aggregate_keys_are_cells_of_batches_witness:
  "set (dict_keys (aggregate example_cell 8 example_mean
          [take 3 example_pings, drop 3 example_pings])) = {''h1'', ''h2''}"
  using aggregate_keys_are_cells_of_batches
    [of example_cell 8 example_mean "[take 3 example_pings, drop 3 example_pings]"]
  by (simp add: example_pings_def ping_def cell_of_def example_cell_def insert_commute)

text \<open>
  C10. The claim is what the aggregation is written to keep: a cell enters
  \<open>hex_features\<close> with a record of its own, \<open>visit_count\<close> is commented as the
  total visits of the cell and \<open>device_count\<close> as its unique devices. The code misses
  it for a record without device identifier: \<open>count\<close> and \<open>nunique\<close> are taken of
  the column \<open>device_id\<close> and skip the missing entry, while the group of the cell and
  its mean timestamp do use the record. After the first batch of the stream below, the
  cell \<open>h1\<close> has one record, \<open>visit_count = 0\<close> and \<open>device_count = 0\<close>.
\<close>

theorem counts_invariant_fails_without_device_id:
  "records_in_cell example_cell 8 ''h1'' (concat (take 1 [[anonymous_ping]])) = 1
   \<and> aggregate example_cell 8 example_mean (take 1 [[anonymous_ping]])
     = [(''h1'', \<lparr>device_count = 0, visit_count = 0, avg_time = 10\<rparr>)]
   \<and> \<not> counts_ok (aggregate example_cell 8 example_mean (take 1 [[anonymous_ping]]))"
  by (simp add: aggregate_def process_batch_def grouped_def with_hex_id_def anonymous_ping_def
      example_cell_def example_mean_def merge_row_def agg_group_def group_rows_def
      nunique_def count_present_def counts_ok_def records_in_cell_def cell_of_def)

section \<open>The join against a dictionary\<close>

lemma features_row_key:
  "cell [''hex_id'', ''device_count'', ''visit_count'', ''avg_time''] (features_row p) ''hex_id''
   = StrV (fst p)"
  by (simp add: cell_def features_row_def)

lemma features_row_without:
  "without [''hex_id''] [''hex_id'', ''device_count'', ''visit_count'', ''avg_time''] (features_row p)
   = [IntV (device_count (snd p)), IntV (visit_count (snd p)), FltV (avg_time (snd p))]"
  by (simp add: without_def features_row_def)

lemma matches_features:
  "matches (mobility_features_df hf) ''hex_id'' k
   = map features_row (filter (\<lambda>p. StrV (fst p) = k) hf)"
  by (simp add: matches_def mobility_features_df_def filter_map comp_def features_row_key)

lemma distinct_key_filter:
  "distinct (map fst d) \<Longrightarrow> length (filter (\<lambda>p. StrV (fst p) = k) d) \<le> 1"
proof (induction d)
  case Nil
  show ?case by simp
next
  case (Cons a d)
  show ?case
  proof (cases "StrV (fst a) = k")
    case True
    from Cons.prems have notin: "fst a \<notin> fst ` set d" by simp
    have "StrV (fst p) \<noteq> k" if "p \<in> set d" for p
    proof
      assume "StrV (fst p) = k"
      with True have "fst p = fst a" by auto
      with that notin show False by (metis imageI)
    qed
    then have "filter (\<lambda>p. StrV (fst p) = k) d = []"
      by (simp add: filter_empty_conv)
    with True show ?thesis by simp
  next
    case False
    with Cons show ?thesis by simp
  qed
qed

lemma merged_rows_single:
  assumes "distinct (map fst hf)"
  shows "merged_rows lcols (mobility_features_df hf) ''hex_id'' l
         = [l @ extension hf (cell lcols l ''hex_id'')]"
proof -
  let ?k = "cell lcols l ''hex_id''"
  let ?ms = "filter (\<lambda>p. StrV (fst p) = ?k) hf"
  have len: "length ?ms \<le> 1"
    using assms by (rule distinct_key_filter)
  have cols: "columns (mobility_features_df hf)
              = [''hex_id'', ''device_count'', ''visit_count'', ''avg_time'']"
    by (simp add: mobility_features_df_def)
  show ?thesis
  proof (cases ?ms)
    case Nil
    then show ?thesis
      by (simp add: merged_rows_def matches_features extension_def cols)
  next
    case (Cons p ps)
    with len have "ps = []" by simp
    with Cons show ?thesis
      by (simp add: merged_rows_def matches_features extension_def cols features_row_without)
  qed
qed

lemma merge_left_Inr:
  assumes "merge_left left right on = Inr m"
  shows "on \<in> set (columns left)"
    and "m = \<lparr>columns = merged_columns (columns left) (columns right) on,
              rows = concat (map (merged_rows (columns left) right on) (rows left))\<rparr>"
  using assms by (auto simp: merge_left_def split: if_splits)

lemma merged_Inr:
  assumes "merged df hf = Inr joined" and "distinct (map fst hf)"
  shows "''hex_id'' \<in> set (columns df)"
    and "joined = \<lparr>columns = merged_columns (columns df)
                       [''hex_id'', ''device_count'', ''visit_count'', ''avg_time''] ''hex_id'',
                    rows = map (\<lambda>l. map (fill_value (IntV 0)) l
                                @ map (fill_value (IntV 0))
                                    (extension hf (cell (columns df) l ''hex_id'')))
                             (rows df)\<rparr>"
proof -
  from assms(1) obtain m where m: "merge_left df (mobility_features_df hf) ''hex_id'' = Inr m"
    and j: "joined = fillna (IntV 0) m"
    by (auto simp: merged_def split: sum.splits)
  from m show "''hex_id'' \<in> set (columns df)"
    by (rule merge_left_Inr(1))
  have "concat (map (merged_rows (columns df) (mobility_features_df hf) ''hex_id'') ls)
        = map (\<lambda>l. l @ extension hf (cell (columns df) l ''hex_id'')) ls" for ls
    by (induction ls) (simp_all add: merged_rows_single[OF assms(2)])
  with merge_left_Inr(2)[OF m] j
  show "joined = \<lparr>columns = merged_columns (columns df)
                       [''hex_id'', ''device_count'', ''visit_count'', ''avg_time''] ''hex_id'',
                    rows = map (\<lambda>l. map (fill_value (IntV 0)) l
                                @ map (fill_value (IntV 0))
                                    (extension hf (cell (columns df) l ''hex_id'')))
                             (rows df)\<rparr>"
    by (simp add: mobility_features_df_def fillna_def comp_def)
qed


lemma extension_length: "length (extension hf k) = 3"
  by (simp add: extension_def split: list.splits)


lemma merged_columns_no_clash:
  assumes "set cols \<inter> {''device_count'', ''visit_count'', ''avg_time''} = {}"
  shows "left_labels cols [''hex_id'', ''device_count'', ''visit_count'', ''avg_time''] ''hex_id''
         = cols"
    and "right_labels cols [''hex_id'', ''device_count'', ''visit_count'', ''avg_time''] ''hex_id''
         = [''device_count'', ''visit_count'', ''avg_time'']"
    and "merged_columns cols [''hex_id'', ''device_count'', ''visit_count'', ''avg_time''] ''hex_id''
         = cols @ [''device_count'', ''visit_count'', ''avg_time'']"
proof -
  have "map (\<lambda>c. if c \<noteq> ''hex_id''
                     \<and> c \<in> set [''hex_id'', ''device_count'', ''visit_count'', ''avg_time'']
                  then c @ ''_x'' else c) cols = cols"
    using assms by (induction cols) auto
  then show l: "left_labels cols [''hex_id'', ''device_count'', ''visit_count'', ''avg_time'']
                  ''hex_id'' = cols"
    by (simp only: left_labels_def)
  from assms have "''device_count'' \<notin> set cols" "''visit_count'' \<notin> set cols"
    "''avg_time'' \<notin> set cols" by auto
  then show r: "right_labels cols [''hex_id'', ''device_count'', ''visit_count'', ''avg_time'']
                  ''hex_id'' = [''device_count'', ''visit_count'', ''avg_time'']"
    by (simp add: right_labels_def)
  from l r show "merged_columns cols [''hex_id'', ''device_count'', ''visit_count'', ''avg_time'']
                   ''hex_id'' = cols @ [''device_count'', ''visit_count'', ''avg_time'']"
    by (simp only: merged_columns_def)
qed

text \<open>
  When the join goes through: the table has distinct labels, \<open>hex_id\<close> among them
  and none named like a feature, and its \<open>hex_id\<close> column holds a string unless one
  of the two tables has no rows.
\<close>

lemma zip_same_components: "q \<in> set (zip xs xs) \<Longrightarrow> fst q = snd q"
  by (induction xs) auto

lemma suffix_dups_same: "suffix_dups labels labels = []"
proof -
  have "\<not> (fst (snd p) \<and> \<not> snd (snd p))"
    if "p \<in> set (zip labels (zip (duplicated labels) (duplicated labels)))" for p
  proof -
    from that have "snd p \<in> set (zip (duplicated labels) (duplicated labels))"
      by (metis prod.collapse set_zip_rightD)
    then have "fst (snd p) = snd (snd p)"
      by (rule zip_same_components)
    then show ?thesis by simp
  qed
  then show ?thesis
    by (simp add: suffix_dups_def filter_empty_conv)
qed

lemma features_key_column:
  "column_values (mobility_features_df hf) ''hex_id'' = map (\<lambda>p. StrV (fst p)) hf"
  by (simp add: column_values_def mobility_features_df_def features_row_key comp_def)

lemma distinct_once: "distinct xs \<Longrightarrow> x \<in> set xs \<Longrightarrow> length (filter (\<lambda>c. c = x) xs) = 1"
  by (induction xs) (auto simp: filter_empty_conv)

lemma merged_succeeds:
  assumes l: "''hex_id'' \<in> set (columns df)" and "distinct (columns df)"
    and names: "set (columns df) \<inter> {''device_count'', ''visit_count'', ''avg_time''} = {}"
    and keys: "rows df = [] \<or> hf = [] \<or> list_ex is_str (column_values df ''hex_id'')"
  shows "\<exists>joined. merged df hf = Inr joined"
proof -
  let ?right = "mobility_features_df hf"
  have c: "columns ?right = [''hex_id'', ''device_count'', ''visit_count'', ''avg_time'']"
    by (simp add: mobility_features_df_def)
  from assms(2) l have once: "length (filter (\<lambda>c. c = ''hex_id'') (columns df)) = 1"
    by (rule distinct_once)
  have "list_ex is_str (column_values ?right ''hex_id'')" if "hf \<noteq> []"
    using that by (cases hf) (simp_all add: features_key_column)
  with keys have k: "\<not> key_dtype_clash df ?right ''hex_id''"
    by (auto simp: key_dtype_clash_def mobility_features_df_def)
  have "merge_left df ?right ''hex_id''
        = Inr \<lparr>columns = merged_columns (columns df) (columns ?right) ''hex_id'',
               rows = concat (map (merged_rows (columns df) ?right ''hex_id'') (rows df))\<rparr>"
    unfolding merge_left_def
    using once l k
    by (simp add: c merged_columns_no_clash[OF names] suffix_dups_same)
  then show ?thesis
    by (simp add: merged_def)
qed

text \<open>The definitions that a concrete join unfolds to.\<close>

lemmas merged_eval =
  merged_def merge_left_def key_dtype_clash_def column_values_def suffix_dups_def
  duplicated_def left_labels_def right_labels_def mobility_features_df_def features_row_def
  merged_columns_def merged_rows_def matches_def cell_def without_def fillna_def fill_value_def

text \<open>
  Joins that raise: a table with the labels \<open>device_count\<close> and \<open>device_count_x\<close>,
  whose first label the suffix turns into the second, and a table whose \<open>hex_id\<close>
  column is numeric. A table with the labels \<open>device_count\<close> and \<open>device_count_y\<close> is
  joined, and the result has the label \<open>device_count_y\<close> twice.
\<close>

lemma merged_MergeError_example:
  "merged \<lparr>columns = [''hex_id'', ''device_count'', ''device_count_x''],
           rows = [[StrV ''h1'', IntV 7, IntV 8]]\<rparr> example_features = Inl MergeError"
  by (simp add: merged_eval example_features_def)

lemma merged_ValueError_example:
  "merged \<lparr>columns = [''hex_id'', ''cost_of_living''],
           rows = [[IntV 5, NaN]]\<rparr> example_features = Inl ValueError"
  by (simp add: merged_eval example_features_def)

lemma merged_clash_example:
  "merged example_clash_test example_features
   = Inr \<lparr>columns = [''hex_id'', ''device_count_x'', ''device_count_y'', ''device_count_y'',
                      ''visit_count'', ''avg_time''],
          rows = [[StrV ''h1'', IntV 7, IntV 8, IntV 4, IntV 5, FltV 65]]\<rparr>"
  by (simp add: merged_eval example_features_def example_clash_test_def)

section \<open>Claims on the join\<close>

text \<open>
  C4. Whenever the join returns a table, that table has exactly one row per row of the
  input table, in the order of the input: row \<open>i\<close> of the joined table is row \<open>i\<close> of
  the input (missing values filled) followed by three feature values. The dictionary
  holds every key once.
\<close>

theorem joiner_one_row_per_input_row:
  assumes "merged df hex_features = Inr joined" and "distinct (dict_keys hex_features)"
  shows "length (rows joined) = length (rows df)
       \<and> map (\<lambda>r. take (length r - 3) r) (rows joined) = rows (fillna (IntV 0) df)"
proof -
  from assms(2) have d: "distinct (map fst hex_features)"
    by (simp add: dict_keys_def)
  have "take (length l + length (extension hex_features k) - 3)
          (map (fill_value (IntV 0)) l @ map (fill_value (IntV 0)) (extension hex_features k))
        = map (fill_value (IntV 0)) l" for l :: "'a val list" and k
    by (simp add: extension_length)
  then show ?thesis
    unfolding merged_Inr(2)[OF assms(1) d]
    by (simp add: fillna_def comp_def)
qed

theorem joiner_one_row_per_input_row_witness:
  "merged example_train example_features
     = Inr \<lparr>columns = [''hex_id'', ''cost_of_living'', ''device_count'', ''visit_count'', ''avg_time''],
            rows = [[StrV ''h1'', FltV (1/5), IntV 4, IntV 5, FltV 65],
                    [StrV ''h2'', FltV (1/2), IntV 2, IntV 2, FltV 65],
                    [StrV ''h3'', FltV (4/5), IntV 0, IntV 0, IntV 0]]\<rparr>
   \<and> distinct (dict_keys example_features)
   \<and> length (rows example_train) = 3"
proof -
  let ?j = "\<lparr>columns = [''hex_id'', ''cost_of_living'', ''device_count'', ''visit_count'', ''avg_time''],
            rows = [[StrV ''h1'', FltV (1/5), IntV 4, IntV 5, FltV 65],
                    [StrV ''h2'', FltV (1/2), IntV 2, IntV 2, FltV 65],
                    [StrV ''h3'', FltV (4/5 :: real), IntV 0, IntV 0, IntV 0]]\<rparr>"
  have d: "distinct (dict_keys example_features)"
    by (simp add: example_features_def dict_keys_def)
  have m: "merged example_train example_features = Inr ?j"
    by (simp add: merged_eval example_train_def example_features_def)
  from joiner_one_row_per_input_row [OF m d]
  have "length (rows example_train) = 3" by simp
  with m d show ?thesis by blast
qed





section \<open>The alignment of the columns\<close>




lemma conform_row_self:
  "distinct cols \<Longrightarrow> length r = length cols \<Longrightarrow>
   map (\<lambda>c. case map_of (zip cols r) c of Some x \<Rightarrow> x | None \<Rightarrow> v) cols = r"
proof (induction cols arbitrary: r)
  case Nil
  then show ?case by simp
next
  case (Cons c cols)
  from Cons.prems(2) obtain x xs where r: "r = x # xs" and len: "length xs = length cols"
    by (cases r) auto
  from Cons.prems(1) have notin: "c \<notin> set cols" and dist: "distinct cols" by auto
  have "map (\<lambda>c'. case map_of (zip (c # cols) (x # xs)) c' of Some y \<Rightarrow> y | None \<Rightarrow> v) cols
        = map (\<lambda>c'. case map_of (zip cols xs) c' of Some y \<Rightarrow> y | None \<Rightarrow> v) cols"
    using notin by (intro map_cong) auto
  also have "\<dots> = xs"
    using dist len by (rule Cons.IH)
  finally show ?case by (simp add: r)
qed











lemma merged_no_missing:
  assumes "merged df hex_features = Inr joined"
  shows "NaN \<notin> set (concat (rows joined))"
proof -
  from assms obtain m where "joined = fillna (IntV 0) m"
    by (auto simp: merged_def split: sum.splits)
  then show ?thesis
    by (auto simp: fillna_def fill_value_def)
qed

lemma X_of_example:
  "X_of example_train example_features
   = Inr \<lparr>columns = [''device_count'', ''visit_count'', ''avg_time''],
          rows = [[IntV 4, IntV 5, FltV 65], [IntV 2, IntV 2, FltV 65], [IntV 0, IntV 0, IntV 0]]\<rparr>"
  by (simp add: X_of_def merged_eval example_train_def example_features_def drop_columns_def
      drop_ignore_def)






text \<open>
  When the alignment fails: the joined table without \<open>hex_id\<close> has a label twice and
  its columns are not the training columns already. The table that the join makes of
  a table with the labels \<open>device_count\<close> and \<open>device_count_y\<close> is such a table.
\<close>

lemma test_X_of_fails_iff:
  "(\<exists>e. test_X_of X_train_columns test_merged = Inl e)
   \<longleftrightarrow> columns (drop_ignore [''hex_id''] test_merged) \<noteq> X_train_columns
       \<and> \<not> distinct (columns (drop_ignore [''hex_id''] test_merged))"
  by (simp add: test_X_of_def reindex_def)

lemma test_X_of_succeeds:
  assumes "distinct (columns test_merged)"
  shows "\<exists>test_X. test_X_of X_train_columns test_merged = Inr test_X"
  using assms by (simp add: test_X_of_def reindex_def drop_ignore_def)

lemma test_X_of_clash_example:
  "test_X_of [''device_count'', ''visit_count'', ''avg_time'']
     \<lparr>columns = [''hex_id'', ''device_count_x'', ''device_count_y'', ''device_count_y'',
                 ''visit_count'', ''avg_time''],
      rows = [[StrV ''h1'', IntV 7, IntV 8, IntV 4, IntV 5, FltV (65::real)]]\<rparr>
   = Inl ValueError"
  by (simp add: test_X_of_def reindex_def drop_ignore_def)

section \<open>Claims on the alignment of the columns\<close>



text \<open>
  C8. Aligning a feature table whose columns are already the training columns, in the
  same order, gives the table back unchanged; and conforming it to these columns label
  by label gives the same table too. The labels of the table are distinct and every
  row has one value per column.
\<close>

theorem alignment_idempotent:
  assumes "columns test_X = X_train_columns"
    and "distinct X_train_columns"
    and "rectangular test_X"
  shows "reindex X_train_columns (IntV 0) test_X = Inr test_X
       \<and> conform X_train_columns (IntV 0) test_X = test_X"
proof -
  have "map (\<lambda>c. case map_of (zip X_train_columns r) c of Some x \<Rightarrow> x | None \<Rightarrow> IntV 0)
          X_train_columns = r"
    if "r \<in> set (rows test_X)" for r
  proof -
    from that assms(1,3) have "length r = length X_train_columns"
      by (simp add: rectangular_def list_all_iff)
    with assms(2) show ?thesis by (rule conform_row_self)
  qed
  then have "map (\<lambda>r. map (\<lambda>c. case map_of (zip X_train_columns r) c of
                                Some x \<Rightarrow> x | None \<Rightarrow> IntV 0) X_train_columns) (rows test_X)
             = rows test_X"
    by (simp add: map_idI)
  with assms(1) have "conform X_train_columns (IntV 0) test_X = test_X"
    by (simp add: conform_def)
  moreover from assms(1) have "reindex X_train_columns (IntV 0) test_X = Inr test_X"
    by (simp add: reindex_def)
  ultimately show ?thesis by blast
qed

theorem alignment_idempotent_witness:
  "test_X_of [''device_count'', ''visit_count'', ''avg_time''] example_test_merged
     = Inr \<lparr>columns = [''device_count'', ''visit_count'', ''avg_time''],
            rows = [[IntV 0, IntV 0, IntV 0], [IntV 4, IntV 5, FltV 65]]\<rparr>
   \<and> distinct [''device_count'', ''visit_count'', ''avg_time'']
   \<and> rectangular \<lparr>columns = [''device_count'', ''visit_count'', ''avg_time''],
                   rows = [[IntV 0, IntV 0, IntV 0], [IntV 4, IntV 5, FltV (65::real)]]\<rparr>
   \<and> reindex [''device_count'', ''visit_count'', ''avg_time''] (IntV 0)
         \<lparr>columns = [''device_count'', ''visit_count'', ''avg_time''],
          rows = [[IntV 0, IntV 0, IntV 0], [IntV 4, IntV 5, FltV (65::real)]]\<rparr>
       = Inr \<lparr>columns = [''device_count'', ''visit_count'', ''avg_time''],
              rows = [[IntV 0, IntV 0, IntV 0], [IntV 4, IntV 5, FltV 65]]\<rparr>
   \<and> conform [''device_count'', ''visit_count'', ''avg_time''] (IntV 0)
         \<lparr>columns = [''device_count'', ''visit_count'', ''avg_time''],
          rows = [[IntV 0, IntV 0, IntV 0], [IntV 4, IntV 5, FltV (65::real)]]\<rparr>
       = \<lparr>columns = [''device_count'', ''visit_count'', ''avg_time''],
          rows = [[IntV 0, IntV 0, IntV 0], [IntV 4, IntV 5, FltV 65]]\<rparr>"
proof -
  let ?cols = "[''device_count'', ''visit_count'', ''avg_time'']"
  let ?X = "\<lparr>columns = ?cols,
             rows = [[IntV 0, IntV 0, IntV 0], [IntV 4, IntV 5, FltV (65::real)]]\<rparr>"
  have v: "test_X_of ?cols example_test_merged = Inr ?X"
    by (simp add: test_X_of_def reindex_def conform_def drop_ignore_def without_def
        example_test_merged_def)
  have c: "columns ?X = ?cols" by simp
  have d: "distinct ?cols" by simp
  have r: "rectangular ?X" by (simp add: rectangular_def)
  from alignment_idempotent [OF c d r] v d r show ?thesis by blast
qed

section \<open>Claims on the prediction\<close>

lemma without_overwrite:
  "without [c] cols (map (\<lambda>(c', x). if c' = c then v else x) (zip cols r)) = without [c] cols r"
  by (induction cols r rule: list_induct2') (simp_all add: without_def)

lemma without_append:
  assumes "length r = length cols"
  shows "without [c] (cols @ [c]) (r @ [v]) = without [c] cols r"
  using assms by (simp add: without_def)

lemma map_zip_fst:
  assumes "length vs = length rs"
  shows "map (\<lambda>p. g (fst p)) (zip rs vs) = map g rs"
proof -
  have "map (\<lambda>p. g (fst p)) (zip rs vs) = map g (map fst (zip rs vs))"
    by (simp add: comp_def)
  also have "map fst (zip rs vs) = rs"
    by (rule map_fst_zip) (rule assms[symmetric])
  finally show ?thesis .
qed

lemma set_column_drop:
  assumes "rectangular df" and "length vs = length (rows df)"
  shows "\<exists>out. set_column df c vs = Inr out
           \<and> length (rows out) = length (rows df)
           \<and> drop_ignore [c] out = drop_ignore [c] df"
proof (cases "c \<in> set (columns df)")
  case True
  let ?out = "\<lparr>columns = columns df,
               rows = map (\<lambda>(r, v). map (\<lambda>(c', x). if c' = c then v else x) (zip (columns df) r))
                        (zip (rows df) vs)\<rparr>"
  from True assms(2) have "set_column df c vs = Inr ?out"
    by (simp add: set_column_def)
  moreover from assms(2) have "length (rows ?out) = length (rows df)"
    by simp
  moreover have "drop_ignore [c] ?out = drop_ignore [c] df"
  proof -
    have "map (without [c] (columns df)) (rows ?out)
          = map (\<lambda>p. without [c] (columns df)
                      (map (\<lambda>(c', x). if c' = c then snd p else x) (zip (columns df) (fst p))))
              (zip (rows df) vs)"
      by (simp add: comp_def case_prod_beta)
    also have "\<dots> = map (\<lambda>p. without [c] (columns df) (fst p)) (zip (rows df) vs)"
      by (simp only: without_overwrite)
    also have "\<dots> = map (without [c] (columns df)) (rows df)"
      by (rule map_zip_fst[OF assms(2)])
    finally show ?thesis
      by (simp add: drop_ignore_def)
  qed
  ultimately show ?thesis by blast
next
  case False
  let ?out = "\<lparr>columns = columns df @ [c],
               rows = map (\<lambda>(r, v). r @ [v]) (zip (rows df) vs)\<rparr>"
  from False assms(2) have "set_column df c vs = Inr ?out"
    by (simp add: set_column_def)
  moreover from assms(2) have "length (rows ?out) = length (rows df)"
    by simp
  moreover have "drop_ignore [c] ?out = drop_ignore [c] df"
  proof -
    have "without [c] (columns df @ [c]) (fst p @ [snd p]) = without [c] (columns df) (fst p)"
      if "p \<in> set (zip (rows df) vs)" for p
    proof -
      from that have "fst p \<in> set (rows df)"
        by (metis prod.collapse set_zip_leftD)
      with assms(1) have "length (fst p) = length (columns df)"
        by (simp add: rectangular_def list_all_iff)
      then show ?thesis by (rule without_append)
    qed
    then have "map (without [c] (columns df @ [c])) (rows ?out)
          = map (\<lambda>p. without [c] (columns df) (fst p)) (zip (rows df) vs)"
      by (simp add: comp_def case_prod_beta)
    also have "\<dots> = map (without [c] (columns df)) (rows df)"
      by (rule map_zip_fst[OF assms(2)])
    finally show ?thesis
      by (simp add: drop_ignore_def)
  qed
  ultimately show ?thesis by blast
qed

lemma set_column_Inr:
  assumes "rectangular df" and "set_column df c vs = Inr out"
  shows "length (rows out) = length (rows df) \<and> drop_ignore [c] out = drop_ignore [c] df"
proof -
  from assms(2) have "length vs = length (rows df)"
    by (simp add: set_column_def split: if_splits)
  from set_column_drop[OF assms(1) this, of c] assms(2) show ?thesis
    by auto
qed

text \<open>
  Predictions that raise: for the unlabeled table without rows, and for the table
  with the labels \<open>device_count\<close> and \<open>device_count_y\<close>, whose join cannot be aligned.
\<close>

lemma predictor_no_rows_example:
  "predictor example_model [''device_count'', ''visit_count'', ''avg_time''] example_features
     \<lparr>columns = [''hex_id'', ''cost_of_living''], rows = []\<rparr> = Inl ValueError"
  by (simp add: predictor_def merged_eval example_features_def test_X_of_def reindex_def
      conform_def drop_ignore_def predict_def)

lemma predictor_clash_example:
  "predictor example_model [''device_count'', ''visit_count'', ''avg_time''] example_features
     example_clash_test = Inl ValueError"
  unfolding predictor_def merged_clash_example sum.case test_X_of_clash_example ..

text \<open>
  When the prediction goes through: the join returns a table, the alignment returns a
  feature table, which holds no string and no row that the model refuses, there is a
  training column, and the unlabeled table has rows.
\<close>

lemma predictor_succeeds:
  assumes "merged test hex_features = Inr test_merged"
    and "distinct (dict_keys hex_features)"
    and "test_X_of X_train_columns test_merged = Inr test_X"
    and "\<not> list_ex (list_ex is_str) (rows test_X)"
    and "\<not> list_ex (\<lambda>r. model r = None) (rows test_X)"
    and "rows test \<noteq> []"
    and "X_train_columns \<noteq> []"
  shows "\<exists>out. predictor model X_train_columns hex_features test = Inr out"
proof -
  from assms(2) have d: "distinct (map fst hex_features)"
    by (simp add: dict_keys_def)
  have l: "length (rows test_merged) = length (rows test)"
    unfolding merged_Inr(2)[OF assms(1) d] by simp
  from assms(3) have "test_X = drop_ignore [''hex_id''] test_merged
                        \<and> columns (drop_ignore [''hex_id''] test_merged) = X_train_columns
                      \<or> test_X = conform X_train_columns (IntV 0) (drop_ignore [''hex_id''] test_merged)"
    by (auto simp: test_X_of_def reindex_def split: if_splits)
  then have "length (rows test_X) = length (rows test_merged)"
    and c: "columns test_X = X_train_columns"
    by (auto simp: drop_ignore_def conform_def)
  with l have n: "length (rows test_X) = length (rows test)" by simp
  with assms(6) have "rows test_X \<noteq> []" by auto
  with assms(4,5,7) c
  have p: "predict model X_train_columns test_X
           = Inr (map (\<lambda>r. case model r of Some y \<Rightarrow> FltV y | None \<Rightarrow> NaN) (rows test_X))"
    by (simp add: predict_def)
  from n show ?thesis
    by (simp add: predictor_def assms(1,3) p set_column_def)
qed

text \<open>
  C5. Whenever the predictor returns a table for an unlabeled table, that table has as
  many rows as the input, and once the target column \<open>cost_of_living\<close> is removed
  from both, the output is the input: the same columns, the same rows in the same
  order, the same values.
\<close>

theorem predictor_keeps_input_table:
  assumes "rectangular test"
    and "predictor model X_train_columns hex_features test = Inr out"
  shows "length (rows out) = length (rows test)
       \<and> drop_ignore [''cost_of_living''] out = drop_ignore [''cost_of_living''] test"
proof -
  from assms(2) obtain predictions
    where "set_column test ''cost_of_living'' predictions = Inr out"
    by (auto simp: predictor_def split: sum.splits)
  with assms(1) show ?thesis
    by (rule set_column_Inr)
qed

theorem predictor_keeps_input_table_witness:
  "rectangular example_test
   \<and> predictor example_model [''device_count'', ''visit_count'', ''avg_time'']
         example_features example_test
       = Inr \<lparr>columns = [''hex_id'', ''cost_of_living''],
              rows = [[StrV ''h3'', FltV 0], [StrV ''h1'', FltV 74]]\<rparr>
   \<and> drop_ignore [''cost_of_living'']
         \<lparr>columns = [''hex_id'', ''cost_of_living''],
          rows = [[StrV ''h3'', FltV 0], [StrV ''h1'', FltV (74::real)]]\<rparr>
       = drop_ignore [''cost_of_living''] example_test"
proof -
  let ?cols = "[''device_count'', ''visit_count'', ''avg_time'']"
  have r: "rectangular example_test"
    by (simp add: rectangular_def example_test_def)
  have m: "merged example_test example_features = Inr example_test_merged"
    by (simp add: merged_eval example_test_def example_features_def example_test_merged_def)
  have X: "test_X_of ?cols example_test_merged
           = Inr \<lparr>columns = ?cols, rows = [[IntV 0, IntV 0, IntV 0], [IntV 4, IntV 5, FltV 65]]\<rparr>"
    by (simp add: test_X_of_def reindex_def conform_def drop_ignore_def without_def
        example_test_merged_def)
  have p: "predictor example_model ?cols example_features example_test
       = Inr \<lparr>columns = [''hex_id'', ''cost_of_living''],
              rows = [[StrV ''h3'', FltV 0], [StrV ''h1'', FltV 74]]\<rparr>"
    unfolding predictor_def m sum.case X
    by (simp add: predict_def example_model_def set_column_def example_test_def)
  from predictor_keeps_input_table [OF r p] p r
  show ?thesis by simp
qed

end
